theory Spec2Isabelle
  imports Main
begin

section \<open>JavaScript strings\<close>

text \<open>
  A JavaScript string is a sequence of UTF-16 code units. The sanitiser of
  \<^verbatim>\<open>server.mjs\<close> treats code units beyond Latin-1 (curly quotes, zero-width
  characters, the byte-order mark), so a string is modelled as the list of its code
  units, each a natural number. \<open>js\<close> turns an ASCII literal into that form.
  The code units the source names: 9 tab, 10 line feed, 13 carriage return, 32 space,
  34 and 39 the straight quotes, 92 backslash, 96 backtick, 110 \<^verbatim>\<open>n\<close>,
  114 \<^verbatim>\<open>r\<close>, 116 \<^verbatim>\<open>t\<close>, 160 the non-breaking space, 8216 to 8221 the curly
  quotes, 8203 to 8205 the zero-width characters, 65279 the byte-order mark.
\<close>

type_synonym jsstring = "nat list"

definition js :: "string \<Rightarrow> jsstring" where
  "js s = map of_char s"

text \<open>
  ECMAScript LineTerminator: LF, CR, U+2028, U+2029. The regular expression atom
  \<^verbatim>\<open>.\<close> matches every code unit but these.
\<close>

definition is_line_terminator :: "nat \<Rightarrow> bool" where
  "is_line_terminator c = (c = 10 \<or> c = 13 \<or> c = 8232 \<or> c = 8233)"

text \<open>
  The code units that \<^verbatim>\<open>String.prototype.trim\<close> strips and that \<^verbatim>\<open>\s\<close> matches:
  ECMAScript WhiteSpace (TAB, VT, FF, SP, NBSP, U+FEFF and the space separators U+1680,
  U+2000..U+200A, U+202F, U+205F, U+3000) and LineTerminator.
\<close>

definition is_ws :: "nat \<Rightarrow> bool" where
  "is_ws c = (c = 9 \<or> c = 11 \<or> c = 12 \<or> c = 32 \<or> c = 160 \<or> c = 65279 \<or> c = 5760
     \<or> (8192 \<le> c \<and> c \<le> 8202) \<or> c = 8239 \<or> c = 8287 \<or> c = 12288
     \<or> is_line_terminator c)"

definition trim :: "jsstring \<Rightarrow> jsstring" where
  "trim s = rev (dropWhile is_ws (rev (dropWhile is_ws s)))"

definition starts_with :: "jsstring \<Rightarrow> jsstring \<Rightarrow> bool" where
  "starts_with p s = (take (length p) s = p)"

text \<open>
  Matching under the \<^verbatim>\<open>i\<close> flag (without \<^verbatim>\<open>u\<close>) compares canonicalised code
  units; canonicalisation never maps a code unit from 128 on to one below 128, so an ASCII
  pattern character matches exactly its own two ASCII cases.
\<close>

definition ascii_upper :: "nat \<Rightarrow> nat" where
  "ascii_upper c = (if 97 \<le> c \<and> c \<le> 122 then c - 32 else c)"

definition is_ascii_letter :: "nat \<Rightarrow> bool" where
  "is_ascii_letter c = ((97 \<le> c \<and> c \<le> 122) \<or> (65 \<le> c \<and> c \<le> 90))"

definition starts_with_ci :: "jsstring \<Rightarrow> jsstring \<Rightarrow> bool" where
  "starts_with_ci p s = (map ascii_upper (take (length p) s) = map ascii_upper p)"

text \<open>
  \<^verbatim>\<open>text.replace(/pat/g, rep)\<close> for a literal pattern: the matches are taken from left
  to right and do not overlap.
\<close>

fun replace_all :: "jsstring \<Rightarrow> jsstring \<Rightarrow> jsstring \<Rightarrow> jsstring" where
  "replace_all pat rep [] = []"
| "replace_all pat rep (c # cs) =
     (if pat \<noteq> [] \<and> starts_with pat (c # cs)
      then rep @ replace_all pat rep (drop (length pat) (c # cs))
      else c # replace_all pat rep cs)"

text \<open>\<^verbatim>\<open>text.replace(/[...]/g, rep)\<close> for a character class and a replacement.\<close>

definition replace_class :: "(nat \<Rightarrow> bool) \<Rightarrow> jsstring \<Rightarrow> jsstring \<Rightarrow> jsstring" where
  "replace_class cls rep s = concat (map (\<lambda>c. if cls c then rep else [c]) s)"

text \<open>\<^verbatim>\<open>s.split("\n")\<close>: the empty string splits into one empty line.\<close>

fun split_on :: "nat \<Rightarrow> jsstring \<Rightarrow> jsstring list" where
  "split_on sep [] = [[]]"
| "split_on sep (c # cs) =
     (if c = sep then [] # split_on sep cs
      else (case split_on sep cs of
              [] \<Rightarrow> [[c]]
            | l # ls \<Rightarrow> (c # l) # ls))"

fun join :: "jsstring \<Rightarrow> jsstring list \<Rightarrow> jsstring" where
  "join sep [] = []"
| "join sep [l] = l"
| "join sep (l # ls) = l @ sep @ join sep ls"

section \<open>Response normaliser (server.mjs)\<close>

definition fence :: jsstring where
  "fence = [96, 96, 96]"

text \<open>
  \<^verbatim>\<open>text.replace(/^```[\s\S]*?\n/, "")\<close>: the lazy quantifier stops at the first line
  feed after the opening backticks; without one the pattern does not match and the text
  stays as it is.
\<close>

definition strip_open_fence :: "jsstring \<Rightarrow> jsstring" where
  "strip_open_fence t =
     (if starts_with fence t
      then (case dropWhile (\<lambda>c. c \<noteq> 10) (drop 3 t) of
              [] \<Rightarrow> t
            | _ # rest \<Rightarrow> rest)
      else t)"

text \<open>
  \<^verbatim>\<open>text.replace(/```\s*$/, "")\<close>: the leftmost position where three backticks are
  followed by white space only up to the end of the text; the match runs to the end.
\<close>

fun strip_close_fence :: "jsstring \<Rightarrow> jsstring" where
  "strip_close_fence [] = []"
| "strip_close_fence (c # cs) =
     (if starts_with fence (c # cs) \<and> list_all is_ws (drop 3 (c # cs))
      then []
      else c # strip_close_fence cs)"

text \<open>
  \<^verbatim>\<open>text.replace(/^`+|`+$/g, "")\<close>: the run of backticks at the start and the run
  of backticks at the end.
\<close>

definition strip_backticks :: "jsstring \<Rightarrow> jsstring" where
  "strip_backticks t = rev (dropWhile (\<lambda>c. c = 96) (rev (dropWhile (\<lambda>c. c = 96) t)))"

text \<open>
  \<^verbatim>\<open>sanitizeMakeCode(input)\<close>, lines 105 to 115, one binding for each assignment to
  \<^verbatim>\<open>text\<close>.
\<close>

definition sanitizeMakeCode :: "jsstring \<Rightarrow> jsstring" where
  "sanitizeMakeCode input =
     (if input = [] then []
      else
        let text = input;
            text = (if starts_with fence text
                    then strip_close_fence (strip_open_fence text) else text);
            text = replace_all [92, 116] [9]
                     (replace_all [92, 110] [10]
                       (replace_all [92, 114, 92, 110] [10] text));
            text = replace_all [13] [10] (replace_all [13, 10] [10] text);
            text = replace_class (\<lambda>c. c = 8220 \<or> c = 8221) [34]
                     (replace_class (\<lambda>c. c = 8216 \<or> c = 8217) [39] text);
            text = replace_class (\<lambda>c. c = 160) [32]
                     (replace_class (\<lambda>c. (8203 \<le> c \<and> c \<le> 8205) \<or> c = 65279) [] text);
            text = strip_backticks text
        in trim text)"

text \<open>
  \<^verbatim>\<open>separateFeedback(raw)\<close>, lines 117 to 131. The loop over the lines is a
  recursion that returns the feedback entries and the body lines, both in encounter
  order.
\<close>

fun separate_lines :: "jsstring list \<Rightarrow> jsstring list \<times> jsstring list" where
  "separate_lines [] = ([], [])"
| "separate_lines (line # lines) =
     (let trimmed = trim line;
          (feedback, bodyLines) = separate_lines lines
      in if starts_with_ci (js ''FEEDBACK:'') trimmed
         then (trim (dropWhile is_ws (drop 9 trimmed)) # feedback, bodyLines)
         else (feedback, line # bodyLines))"

definition separateFeedback :: "jsstring \<Rightarrow> jsstring list \<times> jsstring" where
  "separateFeedback raw =
     (if raw = [] then ([], [])
      else
        let lines = split_on 10 (replace_all [13] [10] (replace_all [13, 10] [10] raw));
            (feedback, bodyLines) = separate_lines lines
        in (feedback, trim (join [10] bodyLines)))"

text \<open>
  \<^verbatim>\<open>raw.match(/```[a-z]*\n([\s\S]*?)```/i)\<close>. \<open>until_fence\<close> is the lazy group
  followed by the closing backticks: the shortest text before three backticks.
  \<open>fence_at\<close> tries the pattern at the head of the text, \<open>match_fence\<close> tries each
  start position from the left and returns the first group captured.
\<close>

fun until_fence :: "jsstring \<Rightarrow> jsstring option" where
  "until_fence [] = None"
| "until_fence (c # cs) =
     (if starts_with fence (c # cs) then Some []
      else map_option ((#) c) (until_fence cs))"

definition fence_at :: "jsstring \<Rightarrow> jsstring option" where
  "fence_at t =
     (if starts_with fence t
      then (case dropWhile is_ascii_letter (drop 3 t) of
              [] \<Rightarrow> None
            | c # rest \<Rightarrow> if c = 10 then until_fence rest else None)
      else None)"

fun match_fence :: "jsstring \<Rightarrow> jsstring option" where
  "match_fence [] = None"
| "match_fence (c # cs) =
     (case fence_at (c # cs) of
        Some m \<Rightarrow> Some m
      | None \<Rightarrow> match_fence cs)"

definition extractCode :: "jsstring \<Rightarrow> jsstring" where
  "extractCode raw =
     (if raw = [] then []
      else sanitizeMakeCode (case match_fence raw of Some m \<Rightarrow> m | None \<Rightarrow> raw))"

text \<open>
  \<^verbatim>\<open>stubForTarget(target)\<close>, lines 140 to 158: three fixed programs, each a list of
  lines joined by a line feed; code unit 34 is the straight double quote.
\<close>

definition stub_arcade :: jsstring where
  "stub_arcade = join [10]
     [js ''controller.A.onEvent(ControllerButtonEvent.Pressed, function () {'',
      js ''    game.splash('' @ [34] @ js ''Start!'' @ [34] @ js '')'',
      js ''})'',
      js ''game.onUpdate(function () {'',
      js ''})'']"

definition stub_maker :: jsstring where
  "stub_maker = join [10] [js ''loops.forever(function () {'', js ''})'']"

definition stub_microbit :: jsstring where
  "stub_microbit = join [10]
     [js ''basic.onStart(function () {'',
      js ''    basic.showString('' @ [34] @ js ''Hi'' @ [34] @ js '')'',
      js ''})'']"

definition stubForTarget :: "jsstring \<Rightarrow> jsstring" where
  "stubForTarget target =
     (if target = js ''arcade'' then stub_arcade
      else if target = js ''maker'' then stub_maker
      else stub_microbit)"

record generated =
  code :: jsstring
  feedback :: "jsstring list"

definition fallback_note :: jsstring where
  "fallback_note = js ''Model returned no code; provided fallback stub.''"

text \<open>
  The end of \<^verbatim>\<open>generateManaged\<close>, lines 309 to 322: what the function returns once
  the provider has answered with the text \<open>raw\<close>.
\<close>

definition normalise :: "jsstring \<Rightarrow> jsstring \<Rightarrow> generated" where
  "normalise target raw =
     (let parts = separateFeedback raw;
          code = extractCode (snd parts)
      in if code = []
         then \<lparr>code = stubForTarget target,
               feedback = fst parts @ [fallback_note]\<rparr>
         else \<lparr>code = code, feedback = fst parts\<rparr>)"

section \<open>Principal state (db.mjs)\<close>

text \<open>
  The two tables of \<^verbatim>\<open>migrate\<close>, a record for each row with the columns of the
  schema (\<^verbatim>\<open>id\<close>, \<^verbatim>\<open>name\<close> and \<^verbatim>\<open>active\<close> carry the prefix of their table;
  INTEGER columns are integers, TEXT columns strings, NULL is not modelled), and the
  database as the two lists of rows. \<^verbatim>\<open>active\<close> is read by truthiness: every value
  but 0 counts as active.
\<close>

record classroom =
  c_id :: jsstring
  c_name :: jsstring
  join_code :: jsstring
  teacher_token :: jsstring
  max_students :: int
  request_limit :: int
  c_active :: int
  created_at :: jsstring

record student =
  s_id :: jsstring
  classroom_id :: jsstring
  display_name :: jsstring
  token :: jsstring
  requests_used :: int
  s_active :: int
  joined_at :: jsstring

record db =
  classrooms :: "classroom list"
  students :: "student list"

text \<open>
  \<^verbatim>\<open>hashToken\<close> is SHA-256 of node:crypto, a library outside the repository: the
  functions that hash take it as the parameter \<open>H\<close>.
\<close>

text \<open>\<^verbatim>\<open>SELECT * FROM classrooms WHERE id = ?\<close>, first row or null.\<close>

definition getClassroom :: "db \<Rightarrow> jsstring \<Rightarrow> classroom option" where
  "getClassroom d i = find (\<lambda>c. c_id c = i) (classrooms d)"

text \<open>\<^verbatim>\<open>SELECT * FROM students WHERE token = ?\<close> on the hashed token, first row or null.\<close>

definition getStudentByToken :: "(jsstring \<Rightarrow> jsstring) \<Rightarrow> db \<Rightarrow> jsstring \<Rightarrow> student option" where
  "getStudentByToken H d rawToken = find (\<lambda>s. token s = H rawToken) (students d)"

text \<open>\<^verbatim>\<open>UPDATE students SET requests_used = requests_used + 1 WHERE id = ?\<close>.\<close>

definition incrementStudentUsage :: "db \<Rightarrow> jsstring \<Rightarrow> db" where
  "incrementStudentUsage d studentId =
     d\<lparr>students :=
         map (\<lambda>s. if s_id s = studentId
                   then s\<lparr>requests_used := requests_used s + 1\<rparr> else s)
             (students d)\<rparr>"

text \<open>
  \<^verbatim>\<open>UPDATE students SET active = 0 WHERE id = ? AND classroom_id = ?\<close>; the function
  returns \<^verbatim>\<open>changes > 0\<close>, where SQLite counts every row that the WHERE clause
  selects, whether or not the update alters it.
\<close>

definition deactivateStudent :: "db \<Rightarrow> jsstring \<Rightarrow> jsstring \<Rightarrow> db \<times> bool" where
  "deactivateStudent d studentId classroomId =
     (let selected = (\<lambda>s. s_id s = studentId \<and> classroom_id s = classroomId);
          changes = length (filter selected (students d))
      in (d\<lparr>students :=
               map (\<lambda>s. if selected s then s\<lparr>s_active := 0\<rparr> else s) (students d)\<rparr>,
          changes > 0))"

text \<open>\<^verbatim>\<open>UPDATE students SET requests_used = 0 WHERE classroom_id = ?\<close>.\<close>

definition resetStudentUsage :: "db \<Rightarrow> jsstring \<Rightarrow> db" where
  "resetStudentUsage d classroomId =
     d\<lparr>students :=
         map (\<lambda>s. if classroom_id s = classroomId
                   then s\<lparr>requests_used := 0\<rparr> else s)
             (students d)\<rparr>"

section \<open>Authorisation of a generation request (server.mjs)\<close>

text \<open>
  \<^verbatim>\<open>const SERVER_APP_TOKEN = process.env.SERVER_APP_TOKEN || ""\<close>: an unset variable
  and an empty one both give the empty string.
\<close>

definition server_app_token :: "jsstring option \<Rightarrow> jsstring" where
  "server_app_token env = (case env of None \<Rightarrow> [] | Some v \<Rightarrow> if v = [] then [] else v)"

text \<open>
  \<^verbatim>\<open>String(headerValue).match(/^Bearer\s+(.+)$/i)\<close>, the first group of the match.
  After the six letters, \<^verbatim>\<open>\s+\<close> first takes the whole run of white space. When
  text follows the run, \<^verbatim>\<open>(.+)$\<close> has to take all of it, which it can exactly when
  the text holds no line terminator (giving white space back would leave the terminator
  in the group). When nothing follows, the expression gives back the last white space
  character of the run to the group, which needs a run of two or more and a last
  character that is no line terminator.
\<close>

definition bearer_match :: "jsstring \<Rightarrow> jsstring option" where
  "bearer_match h =
     (if starts_with_ci (js ''Bearer'') h
      then
        let ws = takeWhile is_ws (drop 6 h);
            rest = dropWhile is_ws (drop 6 h)
        in if ws = [] then None
           else if rest \<noteq> [] then
             (if list_ex is_line_terminator rest then None else Some rest)
           else if length ws \<ge> 2 \<and> \<not> is_line_terminator (last ws) then Some [last ws]
           else None
      else None)"

text \<open>
  The header values the pattern matches, in the pattern's own terms: the six letters in
  any case, one or more white space characters, and a non-empty group with no line
  terminator.
\<close>

definition bearer_split :: "jsstring \<Rightarrow> jsstring \<Rightarrow> jsstring \<Rightarrow> bool" where
  "bearer_split h ws m \<longleftrightarrow>
     (\<exists>p. h = p @ ws @ m \<and> map ascii_upper p = map ascii_upper (js ''Bearer''))
     \<and> ws \<noteq> [] \<and> list_all is_ws ws
     \<and> m \<noteq> [] \<and> \<not> list_ex is_line_terminator m"

text \<open>
  \<^verbatim>\<open>extractBearerToken(headerValue)\<close>, lines 325 to 329; the header is absent
  (\<open>None\<close>) or a string.
\<close>

definition extractBearerToken :: "jsstring option \<Rightarrow> jsstring" where
  "extractBearerToken headerValue =
     (case headerValue of
        None \<Rightarrow> []
      | Some h \<Rightarrow>
          if h = [] then []
          else (case bearer_match h of Some m \<Rightarrow> m | None \<Rightarrow> []))"

text \<open>
  The error bodies of the generation route, one constructor for each message text:
  \<^verbatim>\<open>Unauthorized\<close>; \<^verbatim>\<open>Your access has been deactivated by the teacher\<close>;
  \<^verbatim>\<open>Classroom is currently paused\<close>; \<^verbatim>\<open>Request limit reached (N). Ask your teacher
  for more.\<close> with the limit; \<^verbatim>\<open>'request' is required\<close>. An exception caught by the
  handler is an \<^verbatim>\<open>AbortError\<close> or an error with a message.
\<close>

datatype error_message =
    Unauthorized
  | AccessDeactivated
  | ClassroomPaused
  | RequestLimitReached int
  | RequestRequired

datatype failure = AbortError | Error jsstring

datatype body = ErrorBody error_message | FailureBody failure | ResultBody generated

datatype response = Json nat body

text \<open>
  The calls the handler makes on the store and on the pipeline, in the order it makes
  them: the handler returns this log next to the response and the database.
\<close>

datatype event =
    GetStudentByToken jsstring
  | GetClassroom jsstring
  | IncrementStudentUsage jsstring
  | ReadJson
  | GenerateManaged jsstring jsstring jsstring

text \<open>
  The authorisation block of the route \<^verbatim>\<open>POST /vibbit/generate\<close>, lines 554 to 583.
  \<open>None\<close> as response means that the handler goes on to read the body.
\<close>

definition authorise ::
  "(jsstring \<Rightarrow> jsstring) \<Rightarrow> jsstring \<Rightarrow> jsstring \<Rightarrow> db
     \<Rightarrow> response option \<times> db \<times> event list" where
  "authorise H SERVER_APP_TOKEN bearerToken d =
     (if SERVER_APP_TOKEN \<noteq> [] \<and> bearerToken = SERVER_APP_TOKEN then (None, d, [])
      else if bearerToken \<noteq> [] then
        (case getStudentByToken H d bearerToken of
           None \<Rightarrow>
             (Some (Json 401 (ErrorBody Unauthorized)), d, [GetStudentByToken bearerToken])
         | Some student \<Rightarrow>
             if s_active student = 0
             then (Some (Json 403 (ErrorBody AccessDeactivated)), d,
                   [GetStudentByToken bearerToken])
             else
               (case getClassroom d (classroom_id student) of
                  None \<Rightarrow>
                    (Some (Json 403 (ErrorBody ClassroomPaused)), d,
                     [GetStudentByToken bearerToken, GetClassroom (classroom_id student)])
                | Some classroom \<Rightarrow>
                    if c_active classroom = 0
                    then (Some (Json 403 (ErrorBody ClassroomPaused)), d,
                          [GetStudentByToken bearerToken,
                           GetClassroom (classroom_id student)])
                    else if requests_used student \<ge> request_limit classroom
                    then (Some (Json 429
                                  (ErrorBody (RequestLimitReached (request_limit classroom)))),
                          d,
                          [GetStudentByToken bearerToken,
                           GetClassroom (classroom_id student)])
                    else (None, incrementStudentUsage d (s_id student),
                          [GetStudentByToken bearerToken,
                           GetClassroom (classroom_id student),
                           IncrementStudentUsage (s_id student)])))
      else if SERVER_APP_TOKEN \<noteq> [] then (Some (Json 401 (ErrorBody Unauthorized)), d, [])
      else (None, d, []))"

text \<open>
  The JSON body of the request: each of the three fields is a string or is not
  (absent, or of another type; a body that is no object has none of them).
\<close>

record payload =
  p_target :: "jsstring option"
  p_request :: "jsstring option"
  p_currentCode :: "jsstring option"

record validated =
  v_target :: jsstring
  v_request :: jsstring
  v_currentCode :: jsstring

text \<open>\<^verbatim>\<open>validatePayload(payload)\<close>, lines 331 to 350.\<close>

definition validatePayload :: "payload \<Rightarrow> error_message + validated" where
  "validatePayload p =
     (let target = (case p_target p of Some t \<Rightarrow> trim t | None \<Rightarrow> []);
          request = (case p_request p of Some r \<Rightarrow> trim r | None \<Rightarrow> []);
          currentCode = (case p_currentCode p of Some c \<Rightarrow> c | None \<Rightarrow> [])
      in if request = [] then Inl RequestRequired
         else
           let safeTarget =
                 (if target \<in> set [js ''microbit'', js ''arcade'', js ''maker'']
                  then target else js ''microbit'')
           in Inr \<lparr>v_target = safeTarget, v_request = request, v_currentCode = currentCode\<rparr>)"

text \<open>
  \<^verbatim>\<open>generateManaged\<close>, lines 290 to 323. The first part of the function (the key of
  the configured provider, the two prompts and the call of the provider under the time
  limit, lines 291 to 307) ends in an exception or in the text \<^verbatim>\<open>raw\<close>; it talks to
  a service outside the repository and is the parameter \<open>upstream\<close>.
\<close>

definition generateManaged ::
  "(validated \<Rightarrow> failure + jsstring) \<Rightarrow> validated \<Rightarrow> failure + generated" where
  "generateManaged upstream v =
     (case upstream v of
        Inl e \<Rightarrow> Inl e
      | Inr raw \<Rightarrow> Inr (normalise (v_target v) raw))"

text \<open>
  The route \<^verbatim>\<open>POST /vibbit/generate\<close>, lines 550 to 602. \<open>readJson\<close> is what reading
  the body gives: an exception (payload too large, invalid JSON, a broken connection) or
  the parsed body. The handler returns the response, the database and the log of calls.
  The store is taken to answer every call: an exception of the database driver, which
  the handler would turn into a response 500, is not part of the model.
\<close>

definition handle_generate ::
  "(jsstring \<Rightarrow> jsstring) \<Rightarrow> jsstring \<Rightarrow> jsstring option \<Rightarrow> failure + payload
     \<Rightarrow> (validated \<Rightarrow> failure + jsstring) \<Rightarrow> db \<Rightarrow> response \<times> db \<times> event list" where
  "handle_generate H SERVER_APP_TOKEN authorization readJson upstream d =
     (let bearerToken = extractBearerToken authorization
      in case authorise H SERVER_APP_TOKEN bearerToken d of
           (Some rejection, d', log) \<Rightarrow> (rejection, d', log)
         | (None, d', log) \<Rightarrow>
             (case readJson of
                Inl e \<Rightarrow> (Json 500 (FailureBody e), d', log @ [ReadJson])
              | Inr p \<Rightarrow>
                  (case validatePayload p of
                     Inl m \<Rightarrow> (Json 400 (ErrorBody m), d', log @ [ReadJson])
                   | Inr v \<Rightarrow>
                       (case generateManaged upstream v of
                          Inl e \<Rightarrow>
                            (Json 500 (FailureBody e), d',
                             log @ [ReadJson,
                                    GenerateManaged (v_target v) (v_request v) (v_currentCode v)])
                        | Inr result \<Rightarrow>
                            (Json 200 (ResultBody result), d',
                             log @ [ReadJson,
                                    GenerateManaged (v_target v) (v_request v)
                                      (v_currentCode v)])))))"

section \<open>Predicates for the statements\<close>

text \<open>The rows of a student in a classroom that are still active.\<close>

definition matching_active_rows :: "db \<Rightarrow> jsstring \<Rightarrow> jsstring \<Rightarrow> student list" where
  "matching_active_rows d studentId classroomId =
     filter (\<lambda>s. s_id s = studentId \<and> classroom_id s = classroomId \<and> s_active s \<noteq> 0)
       (students d)"

text \<open>\<open>has_sub p s\<close>: the pattern \<open>p\<close> occurs in \<open>s\<close> at some position.\<close>

fun has_sub :: "jsstring \<Rightarrow> jsstring \<Rightarrow> bool" where
  "has_sub p [] = (p = [])"
| "has_sub p (c # cs) = (starts_with p (c # cs) \<or> has_sub p cs)"

text \<open>
  Code that is sanitised already, in the words of the specification: no three backticks
  in a row; no backtick at the start or the end; none of the literal escape sequences
  backslash-r-backslash-n, backslash-n and backslash-t; no curly quote; no carriage
  return; no zero-width character, byte-order mark or non-breaking space; no white space
  at the start or the end.
\<close>

definition sanitized :: "jsstring \<Rightarrow> bool" where
  "sanitized s \<longleftrightarrow>
     \<not> has_sub fence s
     \<and> (s \<noteq> [] \<longrightarrow> hd s \<noteq> 96 \<and> last s \<noteq> 96)
     \<and> \<not> has_sub [92, 114, 92, 110] s \<and> \<not> has_sub [92, 110] s \<and> \<not> has_sub [92, 116] s
     \<and> list_all (\<lambda>c. c \<noteq> 8216 \<and> c \<noteq> 8217 \<and> c \<noteq> 8220 \<and> c \<noteq> 8221) s
     \<and> list_all (\<lambda>c. c \<noteq> 13) s
     \<and> list_all (\<lambda>c. \<not> (8203 \<le> c \<and> c \<le> 8205) \<and> c \<noteq> 65279 \<and> c \<noteq> 160) s
     \<and> (s \<noteq> [] \<longrightarrow> \<not> is_ws (hd s) \<and> \<not> is_ws (last s))"

section \<open>A concrete classroom\<close>

text \<open>
  One classroom with a limit of two requests and three students: \<open>ann\<close> has one request
  left, \<open>bob\<close> has used both, \<open>cy\<close> has been deactivated. The stand-in for the hash
  reverses the token. \<open>paused_school\<close> is the same school with the classroom paused,
  \<open>orphan_school\<close> has lost the classroom row, \<open>hello\<close> is the body of a valid
  request for the target \<^verbatim>\<open>"arcade"\<close> and \<open>plain\<close> the body of one that names no
  target.
\<close>

definition hash0 :: "jsstring \<Rightarrow> jsstring" where
  "hash0 = rev"

definition room :: classroom where
  "room = \<lparr>c_id = js ''c1'', c_name = js ''Room'', join_code = js ''ABC234'',
            teacher_token = js ''tt'', max_students = 40, request_limit = 2,
            c_active = 1, created_at = js ''t0''\<rparr>"

definition ann :: student where
  "ann = \<lparr>s_id = js ''s1'', classroom_id = js ''c1'', display_name = js ''Ann'',
           token = js ''1a'', requests_used = 1, s_active = 1, joined_at = js ''t1''\<rparr>"

definition bob :: student where
  "bob = \<lparr>s_id = js ''s2'', classroom_id = js ''c1'', display_name = js ''Bob'',
           token = js ''2b'', requests_used = 2, s_active = 1, joined_at = js ''t2''\<rparr>"

definition cy :: student where
  "cy = \<lparr>s_id = js ''s3'', classroom_id = js ''c1'', display_name = js ''Cy'',
          token = js ''3c'', requests_used = 0, s_active = 0, joined_at = js ''t3''\<rparr>"

definition school :: db where
  "school = \<lparr>classrooms = [room], students = [ann, bob, cy]\<rparr>"

definition paused_school :: db where
  "paused_school = \<lparr>classrooms = [room\<lparr>c_active := 0\<rparr>], students = [ann, bob, cy]\<rparr>"

definition orphan_school :: db where
  "orphan_school = \<lparr>classrooms = [], students = [ann, bob, cy]\<rparr>"

definition hello :: payload where
  "hello = \<lparr>p_target = Some (js ''arcade''), p_request = Some (js ''hi''),
             p_currentCode = None\<rparr>"


section \<open>Properties of the response normaliser\<close>

text \<open>The definitions that evaluate the text primitives on a concrete string.\<close>

lemmas eval_text = js_def fence_def trim_def is_ws_def is_line_terminator_def
  starts_with_def starts_with_ci_def ascii_upper_def is_ascii_letter_def
  replace_class_def strip_open_fence_def strip_backticks_def fence_at_def





text \<open>
  Claim C8. For the raw text made of the line \<^verbatim>\<open>FEEDBACK: note\<close> followed by a fenced
  block that holds the single line \<^verbatim>\<open>code_line\<close>, the normaliser returns the feedback
  list with the one entry \<^verbatim>\<open>note\<close> and the code \<^verbatim>\<open>code_line\<close>.
\<close>

theorem normalise_feedback_example:
  "normalise target
     (js ''FEEDBACK: note'' @ [10] @ fence @ [10] @ js ''code_line'' @ [10] @ fence)
   = \<lparr>code = js ''code_line'', feedback = [js ''note'']\<rparr>"
proof -
  define body where "body = fence @ [10] @ js ''code_line'' @ [10] @ fence"
  define raw where "raw = js ''FEEDBACK: note'' @ [10] @ body"
  have sep: "separateFeedback raw = ([js ''note''], body)"
    by (simp add: raw_def body_def separateFeedback_def Let_def eval_text)
  have ex: "extractCode body = js ''code_line''"
    by (simp add: body_def extractCode_def sanitizeMakeCode_def eval_text)
  have ne: "js ''code_line'' \<noteq> []"
    by (simp add: js_def)
  have "normalise target raw = \<lparr>code = js ''code_line'', feedback = [js ''note'']\<rparr>"
    by (simp add: normalise_def Let_def sep ex ne)
  then show ?thesis
    unfolding raw_def body_def .
qed

section \<open>Properties of the authorisation engine\<close>

lemma find_map_same:
  "(\<And>x. P (f x) = P x) \<Longrightarrow> find P (map f xs) = map_option f (find P xs)"
  by (induction xs) auto

lemma getStudentByToken_increment:
  "getStudentByToken H (incrementStudentUsage d sid) b =
     map_option (\<lambda>s. if s_id s = sid then s\<lparr>requests_used := requests_used s + 1\<rparr> else s)
       (getStudentByToken H d b)"
  unfolding getStudentByToken_def incrementStudentUsage_def
  by (simp add: find_map_same)

lemma getStudentByToken_increment_self:
  "getStudentByToken H d b = Some st \<Longrightarrow>
   getStudentByToken H (incrementStudentUsage d (s_id st)) b =
     Some (st\<lparr>requests_used := requests_used st + 1\<rparr>)"
  by (simp add: getStudentByToken_increment)

text \<open>A rejection of the authorisation block is the response of the handler.\<close>

lemma handle_generate_rejected:
  "authorise H tok (extractBearerToken authorization) d = (Some r, d', log) \<Longrightarrow>
   handle_generate H tok authorization readJson upstream d = (r, d', log)"
  by (simp add: handle_generate_def)

text \<open>
  After an admission the handler reads the body and, when the body is valid, calls the
  pipeline once; it makes no further call on the store.
\<close>

lemma handle_generate_admitted:
  assumes "authorise H tok (extractBearerToken authorization) d = (None, d', log)"
  shows "\<exists>r rest. handle_generate H tok authorization readJson upstream d =
                     (r, d', log @ ReadJson # rest)
                 \<and> (rest = [] \<or> (\<exists>t q c. rest = [GenerateManaged t q c]))"
  using assms
  by (simp add: handle_generate_def split: sum.splits)

lemma authorise_never_generates:
  "GenerateManaged t q c \<notin> set (snd (snd (authorise H tok b d)))
   \<and> ReadJson \<notin> set (snd (snd (authorise H tok b d)))"
  by (auto simp add: authorise_def split: if_splits option.splits)

lemma authorise_rejection_keeps_db:
  "authorise H tok b d = (Some r, d', log) \<Longrightarrow>
   d' = d \<and> (\<forall>sid. IncrementStudentUsage sid \<notin> set log)"
  by (auto simp add: authorise_def split: if_splits option.splits)

lemma authorise_student_admitted:
  assumes "b \<noteq> []" "\<not> (tok \<noteq> [] \<and> b = tok)"
    and "authorise H tok b d = (None, d', log)"
  shows "\<exists>st c. getStudentByToken H d b = Some st \<and> s_active st \<noteq> 0
           \<and> getClassroom d (classroom_id st) = Some c \<and> c_active c \<noteq> 0
           \<and> requests_used st < request_limit c
           \<and> d' = incrementStudentUsage d (s_id st)
           \<and> log = [GetStudentByToken b, GetClassroom (classroom_id st),
                     IncrementStudentUsage (s_id st)]"
  using assms
  by (auto simp add: authorise_def split: if_splits option.splits)

lemma authorise_rejection_status:
  "authorise H tok b d = (Some r, d', log) \<Longrightarrow>
   \<exists>m. r = Json 401 (ErrorBody m) \<or> r = Json 403 (ErrorBody m) \<or> r = Json 429 (ErrorBody m)"
  by (auto simp add: authorise_def split: if_splits option.splits)

lemma handle_generate_reads_iff_admitted:
  assumes "handle_generate H tok authorization readJson upstream d = (r, d', log)"
  shows "ReadJson \<in> set log \<longleftrightarrow>
         fst (authorise H tok (extractBearerToken authorization) d) = None"
proof (cases "fst (authorise H tok (extractBearerToken authorization) d)")
  case None
  then obtain d1 log1 where a: "authorise H tok (extractBearerToken authorization) d = (None, d1, log1)"
    by (cases "authorise H tok (extractBearerToken authorization) d") auto
  from handle_generate_admitted [OF a, of readJson upstream] assms
  have "ReadJson \<in> set log"
    by auto
  with None show ?thesis
    by simp
next
  case (Some rej)
  then obtain d1 log1 where a: "authorise H tok (extractBearerToken authorization) d = (Some rej, d1, log1)"
    by (cases "authorise H tok (extractBearerToken authorization) d") auto
  from handle_generate_rejected [OF a, of readJson upstream] assms
  have "log = log1"
    by simp
  moreover have "ReadJson \<notin> set log1"
    using authorise_never_generates [of _ _ _ H tok "extractBearerToken authorization" d] a
    by simp
  ultimately show ?thesis
    using Some by simp
qed



lemmas eval_school = school_def room_def ann_def bob_def cy_def hash0_def
  getStudentByToken_def getClassroom_def js_def

lemma school_ann: "getStudentByToken hash0 school (js ''a1'') = Some ann"
  by (simp add: eval_school)

lemma school_bob: "getStudentByToken hash0 school (js ''b2'') = Some bob"
  by (simp add: eval_school)

lemma school_cy: "getStudentByToken hash0 school (js ''c3'') = Some cy"
  by (simp add: eval_school)

lemma school_room: "getClassroom school (js ''c1'') = Some room"
  by (simp add: eval_school)

lemma bearer_ann: "extractBearerToken (Some (js ''Bearer a1'')) = js ''a1''"
  by (simp add: extractBearerToken_def bearer_match_def Let_def eval_text)

lemma bearer_bob: "extractBearerToken (Some (js ''Bearer b2'')) = js ''b2''"
  by (simp add: extractBearerToken_def bearer_match_def Let_def eval_text)

lemma bearer_cy: "extractBearerToken (Some (js ''Bearer c3'')) = js ''c3''"
  by (simp add: extractBearerToken_def bearer_match_def Let_def eval_text)

lemma bearer_zz: "extractBearerToken (Some (js ''Bearer zz'')) = js ''zz''"
  by (simp add: extractBearerToken_def bearer_match_def Let_def eval_text)

text \<open>
  Claim C1. A generation request presents a student credential (a credential that is
  not the static secret) which resolves to an active student of an active classroom.
  If the student's \<open>requests_used\<close> is at or above the classroom's \<open>request_limit\<close>, the
  response is 429 with the limit, the database is unchanged and no increment is logged.
  If \<open>requests_used\<close> is one less than the limit, the request is admitted, and the
  student read back from the database has \<open>requests_used\<close> equal to the limit.
\<close>

theorem student_quota_boundary:
  assumes mode: "extractBearerToken authorization = b" "b \<noteq> []" "\<not> (tok \<noteq> [] \<and> b = tok)"
    and st: "getStudentByToken H d b = Some st" "s_active st \<noteq> 0"
    and cl: "getClassroom d (classroom_id st) = Some c" "c_active c \<noteq> 0"
  shows "(requests_used st \<ge> request_limit c \<longrightarrow>
            handle_generate H tok authorization readJson upstream d =
              (Json 429 (ErrorBody (RequestLimitReached (request_limit c))), d,
               [GetStudentByToken b, GetClassroom (classroom_id st)]))
       \<and> (requests_used st = request_limit c - 1 \<longrightarrow>
            authorise H tok b d =
              (None, incrementStudentUsage d (s_id st),
               [GetStudentByToken b, GetClassroom (classroom_id st),
                IncrementStudentUsage (s_id st)])
            \<and> fst (snd (handle_generate H tok authorization readJson upstream d)) =
                incrementStudentUsage d (s_id st)
            \<and> getStudentByToken H (incrementStudentUsage d (s_id st)) b =
                Some (st\<lparr>requests_used := request_limit c\<rparr>))"
proof (intro conjI impI)
  assume over: "request_limit c \<le> requests_used st"
  have "authorise H tok b d =
      (Some (Json 429 (ErrorBody (RequestLimitReached (request_limit c)))), d,
       [GetStudentByToken b, GetClassroom (classroom_id st)])"
    using mode st cl over by (simp add: authorise_def)
  then show "handle_generate H tok authorization readJson upstream d =
      (Json 429 (ErrorBody (RequestLimitReached (request_limit c))), d,
       [GetStudentByToken b, GetClassroom (classroom_id st)])"
    using mode(1) by (simp add: handle_generate_rejected)
next
  assume last: "requests_used st = request_limit c - 1"
  show adm: "authorise H tok b d =
      (None, incrementStudentUsage d (s_id st),
       [GetStudentByToken b, GetClassroom (classroom_id st),
        IncrementStudentUsage (s_id st)])"
    using mode st cl last by (simp add: authorise_def)
  from handle_generate_admitted [of H tok authorization d _ _ readJson upstream] adm mode(1)
  show "fst (snd (handle_generate H tok authorization readJson upstream d)) =
      incrementStudentUsage d (s_id st)"
    by auto
  show "getStudentByToken H (incrementStudentUsage d (s_id st)) b =
      Some (st\<lparr>requests_used := request_limit c\<rparr>)"
    using st(1) last by (simp add: getStudentByToken_increment_self)
qed

text \<open>
  Witness for C1: \<open>bob\<close>, at the limit, is answered 429 and the database stays as it
  was; \<open>ann\<close>, one below the limit, is admitted and reaches the limit of two.
\<close>

theorem student_quota_boundary_witness:
  "handle_generate hash0 (js ''k9'') (Some (js ''Bearer b2'')) (Inl AbortError) (\<lambda>v. Inl AbortError) school =
     (Json 429 (ErrorBody (RequestLimitReached 2)), school,
      [GetStudentByToken (js ''b2''), GetClassroom (js ''c1'')])
   \<and> getStudentByToken hash0
        (fst (snd (handle_generate hash0 (js ''k9'') (Some (js ''Bearer a1'')) (Inl AbortError)
                     (\<lambda>v. Inl AbortError) school)))
        (js ''a1'') = Some (ann\<lparr>requests_used := 2\<rparr>)"
proof -
  have b: "js ''b2'' \<noteq> []" "js ''a1'' \<noteq> []"
    by (simp_all add: js_def)
  have r: "c_active room \<noteq> 0" "request_limit room = 2"
    by (simp_all add: room_def)
  have sb: "s_active bob \<noteq> 0" "classroom_id bob = js ''c1''" "requests_used bob = 2"
    by (simp_all add: bob_def)
  have sa: "s_active ann \<noteq> 0" "classroom_id ann = js ''c1''" "requests_used ann = 1"
    by (simp_all add: ann_def)
  have rb: "getClassroom school (classroom_id bob) = Some room"
    by (simp add: sb school_room)
  have ra: "getClassroom school (classroom_id ann) = Some room"
    by (simp add: sa school_room)
  from student_quota_boundary [OF bearer_bob b(1) _ school_bob sb(1) rb r(1),
      of "js ''k9''" "Inl AbortError" "\<lambda>v. Inl AbortError"]
  have one: "handle_generate hash0 (js ''k9'') (Some (js ''Bearer b2'')) (Inl AbortError)
      (\<lambda>v. Inl AbortError) school =
     (Json 429 (ErrorBody (RequestLimitReached 2)), school,
      [GetStudentByToken (js ''b2''), GetClassroom (js ''c1'')])"
    by (simp add: r sb js_def)
  from student_quota_boundary [OF bearer_ann b(2) _ school_ann sa(1) ra r(1),
      of "js ''k9''" "Inl AbortError" "\<lambda>v. Inl AbortError"]
  have two: "getStudentByToken hash0
        (fst (snd (handle_generate hash0 (js ''k9'') (Some (js ''Bearer a1'')) (Inl AbortError)
                     (\<lambda>v. Inl AbortError) school)))
        (js ''a1'') = Some (ann\<lparr>requests_used := 2\<rparr>)"
    by (simp add: r sa js_def)
  from one two show ?thesis by simp
qed

text \<open>
  Claim C2. In student-token mode (a credential is presented and it is not the static
  secret) the log of the handler holds an increment of the usage counter exactly when
  the authorisation block admits the request. On a rejection the response is the
  rejection, the database is unchanged and the pipeline is not called. On an admission
  the database returned is the one with the student's counter incremented, whatever
  reading the body, validating it or the provider do afterwards, and the log starts with
  the two lookups, the increment and the reading of the body: the increment comes before
  the call of the pipeline, and nothing after it touches the counter.
\<close>

theorem usage_increment_on_admission:
  assumes mode: "extractBearerToken authorization = b" "b \<noteq> []" "\<not> (tok \<noteq> [] \<and> b = tok)"
    and run: "handle_generate H tok authorization readJson upstream d = (r, d', log)"
  shows "((\<exists>sid. IncrementStudentUsage sid \<in> set log) \<longleftrightarrow> fst (authorise H tok b d) = None)
       \<and> (fst (authorise H tok b d) \<noteq> None \<longrightarrow>
            fst (authorise H tok b d) = Some r \<and> d' = d
            \<and> (\<forall>t q c. GenerateManaged t q c \<notin> set log))
       \<and> (fst (authorise H tok b d) = None \<longrightarrow>
            (\<exists>st rest.
               getStudentByToken H d b = Some st
               \<and> d' = incrementStudentUsage d (s_id st)
               \<and> getStudentByToken H d' b = Some (st\<lparr>requests_used := requests_used st + 1\<rparr>)
               \<and> log = [GetStudentByToken b, GetClassroom (classroom_id st),
                         IncrementStudentUsage (s_id st), ReadJson] @ rest
               \<and> (rest = [] \<or> (\<exists>t q c. rest = [GenerateManaged t q c]))))"
proof (cases "fst (authorise H tok b d)")
  case (Some rej)
  then obtain d1 log1 where a: "authorise H tok b d = (Some rej, d1, log1)"
    by (cases "authorise H tok b d") auto
  from authorise_rejection_keeps_db [OF a]
  have keep: "d1 = d" "\<forall>sid. IncrementStudentUsage sid \<notin> set log1"
    by simp_all
  from handle_generate_rejected [of H tok authorization d rej d1 log1 readJson upstream] a mode(1) run
  have res: "r = rej" "d' = d1" "log = log1"
    by simp_all
  have "\<forall>t q c. GenerateManaged t q c \<notin> set log1"
    using authorise_never_generates [of _ _ _ H tok b d] a by simp
  with Some keep res show ?thesis
    by simp
next
  case None
  then obtain d1 log1 where a: "authorise H tok b d = (None, d1, log1)"
    by (cases "authorise H tok b d") auto
  from authorise_student_admitted [OF mode(2) mode(3) a]
  obtain st c where st: "getStudentByToken H d b = Some st"
      "d1 = incrementStudentUsage d (s_id st)"
      "log1 = [GetStudentByToken b, GetClassroom (classroom_id st),
               IncrementStudentUsage (s_id st)]"
    by blast
  from handle_generate_admitted [of H tok authorization d d1 log1 readJson upstream] a mode(1) run
  obtain rest where rest: "d' = d1" "log = log1 @ ReadJson # rest"
      "rest = [] \<or> (\<exists>t q c. rest = [GenerateManaged t q c])"
    by auto
  have again: "getStudentByToken H d' b = Some (st\<lparr>requests_used := requests_used st + 1\<rparr>)"
    using st(1) st(2) rest(1) by (simp add: getStudentByToken_increment_self)
  have shape: "log = [GetStudentByToken b, GetClassroom (classroom_id st),
                      IncrementStudentUsage (s_id st), ReadJson] @ rest"
    using st(3) rest(2) by simp
  have inc: "\<exists>sid. IncrementStudentUsage sid \<in> set log"
    using shape by auto
  from None st(1) st(2) rest(1) rest(3) again shape inc show ?thesis
    by blast
qed

text \<open>
  Witness for C2: \<open>ann\<close> is admitted and the provider then times out; the response is
  an error, the counter of \<open>ann\<close> is at two all the same, and the increment stands in
  the log before the call of the pipeline. \<open>bob\<close> is rejected, with the database as it
  was and no increment in the log.
\<close>

lemma validate_hello:
  "validatePayload hello =
     Inr \<lparr>v_target = js ''arcade'', v_request = js ''hi'', v_currentCode = []\<rparr>"
  by (simp add: validatePayload_def hello_def Let_def eval_text)


lemma authorise_ann:
  assumes "tok \<noteq> js ''a1''"
  shows "authorise hash0 tok (js ''a1'') school =
     (None, incrementStudentUsage school (js ''s1''),
      [GetStudentByToken (js ''a1''), GetClassroom (js ''c1''),
       IncrementStudentUsage (js ''s1'')])"
proof -
  have "js ''a1'' \<noteq> []"
    by (simp add: js_def)
  moreover have "s_active ann \<noteq> 0" "classroom_id ann = js ''c1''" "s_id ann = js ''s1''"
      "requests_used ann = 1" "c_active room \<noteq> 0" "request_limit room = 2"
    by (simp_all add: ann_def room_def)
  ultimately show ?thesis
    using assms by (auto simp add: authorise_def school_ann school_room)
qed

lemma k9_not_a1: "js ''k9'' \<noteq> js ''a1''"
  by (simp add: js_def)

lemma limit_bob:
  "handle_generate hash0 (js ''k9'') (Some (js ''Bearer b2'')) (Inr hello)
     (\<lambda>v. Inl AbortError) school =
   (Json 429 (ErrorBody (RequestLimitReached 2)), school,
    [GetStudentByToken (js ''b2''), GetClassroom (js ''c1'')])"
proof -
  have "js ''b2'' \<noteq> []" "js ''b2'' \<noteq> js ''k9''"
    by (simp_all add: js_def)
  moreover have "s_active bob \<noteq> 0" "classroom_id bob = js ''c1''" "requests_used bob = 2"
      "c_active room \<noteq> 0" "request_limit room = 2"
    by (simp_all add: bob_def room_def)
  ultimately show ?thesis
    by (simp add: handle_generate_def bearer_bob authorise_def school_bob school_room)
qed

lemma timeout_ann:
  "handle_generate hash0 (js ''k9'') (Some (js ''Bearer a1'')) (Inr hello)
     (\<lambda>v. Inl AbortError) school =
   (Json 500 (FailureBody AbortError), incrementStudentUsage school (js ''s1''),
    [GetStudentByToken (js ''a1''), GetClassroom (js ''c1''),
     IncrementStudentUsage (js ''s1''), ReadJson,
     GenerateManaged (js ''arcade'') (js ''hi'') []])"
  by (simp add: handle_generate_def bearer_ann authorise_ann [OF k9_not_a1] validate_hello
      generateManaged_def)

theorem usage_increment_on_admission_witness:
  "handle_generate hash0 (js ''k9'') (Some (js ''Bearer a1'')) (Inr hello)
     (\<lambda>v. Inl AbortError) school =
   (Json 500 (FailureBody AbortError), incrementStudentUsage school (js ''s1''),
    [GetStudentByToken (js ''a1''), GetClassroom (js ''c1''),
     IncrementStudentUsage (js ''s1''), ReadJson,
     GenerateManaged (js ''arcade'') (js ''hi'') []])
   \<and> fst (authorise hash0 (js ''k9'') (js ''a1'') school) = None
   \<and> getStudentByToken hash0 (incrementStudentUsage school (js ''s1'')) (js ''a1'') =
       Some (ann\<lparr>requests_used := 2\<rparr>)
   \<and> handle_generate hash0 (js ''k9'') (Some (js ''Bearer b2'')) (Inr hello)
        (\<lambda>v. Inl AbortError) school =
      (Json 429 (ErrorBody (RequestLimitReached 2)), school,
       [GetStudentByToken (js ''b2''), GetClassroom (js ''c1'')])
   \<and> fst (authorise hash0 (js ''k9'') (js ''b2'') school) \<noteq> None"
proof -
  have ne: "js ''a1'' \<noteq> []" "\<not> (js ''k9'' \<noteq> [] \<and> js ''a1'' = js ''k9'')"
    by (simp_all add: js_def)
  have adm: "fst (authorise hash0 (js ''k9'') (js ''a1'') school) = None"
    by (simp add: authorise_ann [OF k9_not_a1])
  from usage_increment_on_admission [OF bearer_ann ne timeout_ann] adm
  obtain st where st: "getStudentByToken hash0 school (js ''a1'') = Some st"
    "getStudentByToken hash0 (incrementStudentUsage school (js ''s1'')) (js ''a1'') =
       Some (st\<lparr>requests_used := requests_used st + 1\<rparr>)"
    by auto
  from st(1) have "st = ann"
    by (simp add: school_ann)
  with st(2) have again: "getStudentByToken hash0 (incrementStudentUsage school (js ''s1''))
       (js ''a1'') = Some (ann\<lparr>requests_used := 2\<rparr>)"
    by (simp add: ann_def)
  have ne2: "js ''b2'' \<noteq> []" "\<not> (js ''k9'' \<noteq> [] \<and> js ''b2'' = js ''k9'')"
    by (simp_all add: js_def)
  from usage_increment_on_admission [OF bearer_bob ne2 limit_bob]
  have rej: "fst (authorise hash0 (js ''k9'') (js ''b2'') school) \<noteq> None"
    by simp
  from timeout_ann adm again limit_bob rej show ?thesis
    by simp
qed

text \<open>
  Claim C3. The handler answers a request whose Authorization header gives the bearer
  token \<open>b\<close>; it is admitted when the handler goes on to read the body. With no
  credential (no header, or an empty token) the request is admitted exactly when no
  static secret is configured: then the handler makes no call on the store and leaves the
  database as it is, and with a secret it answers 401. With a non-empty credential the
  request is admitted only as the static secret or as an active student of an active
  classroom with quota left; a credential that is neither is answered 401, 403 or 429
  with the database unchanged, also when no static secret is configured, and a
  credential that no student has is answered 401 after the one lookup.
\<close>

theorem open_mode_needs_no_credential:
  assumes tokb: "extractBearerToken authorization = b"
    and run: "handle_generate H tok authorization readJson upstream d = (r, d', log)"
  shows "extractBearerToken None = []
       \<and> (b = [] \<longrightarrow> (ReadJson \<in> set log \<longleftrightarrow> tok = []))
       \<and> (b = [] \<and> tok = [] \<longrightarrow>
            d' = d \<and> (\<exists>rest. log = ReadJson # rest
                        \<and> (rest = [] \<or> (\<exists>t q c. rest = [GenerateManaged t q c]))))
       \<and> (b = [] \<and> tok \<noteq> [] \<longrightarrow>
            r = Json 401 (ErrorBody Unauthorized) \<and> d' = d \<and> log = [])
       \<and> (b \<noteq> [] \<and> ReadJson \<in> set log \<longrightarrow>
            (tok \<noteq> [] \<and> b = tok)
            \<or> (\<exists>st c. getStudentByToken H d b = Some st \<and> s_active st \<noteq> 0
                  \<and> getClassroom d (classroom_id st) = Some c \<and> c_active c \<noteq> 0
                  \<and> requests_used st < request_limit c
                  \<and> log ! 0 = GetStudentByToken b))
       \<and> (b \<noteq> [] \<and> \<not> (tok \<noteq> [] \<and> b = tok) \<and> ReadJson \<notin> set log \<longrightarrow>
            d' = d \<and> log \<noteq> []
            \<and> (\<exists>m. r = Json 401 (ErrorBody m) \<or> r = Json 403 (ErrorBody m)
                    \<or> r = Json 429 (ErrorBody m)))
       \<and> (b \<noteq> [] \<and> \<not> (tok \<noteq> [] \<and> b = tok) \<and> getStudentByToken H d b = None \<longrightarrow>
            r = Json 401 (ErrorBody Unauthorized) \<and> d' = d \<and> log = [GetStudentByToken b])"
proof -
  let ?a = "authorise H tok b d"
  have reads: "ReadJson \<in> set log \<longleftrightarrow> fst ?a = None"
    using handle_generate_reads_iff_admitted [OF run] tokb by simp
  have none: "extractBearerToken None = []"
    by (simp add: extractBearerToken_def)
  have c1: "b = [] \<longrightarrow> (ReadJson \<in> set log \<longleftrightarrow> tok = [])"
    using reads by (simp add: authorise_def)
  have c2: "b = [] \<and> tok = [] \<longrightarrow>
            d' = d \<and> (\<exists>rest. log = ReadJson # rest
                        \<and> (rest = [] \<or> (\<exists>t q c. rest = [GenerateManaged t q c])))"
  proof
    assume e: "b = [] \<and> tok = []"
    then have "authorise H tok (extractBearerToken authorization) d = (None, d, [])"
      using tokb by (simp add: authorise_def)
    from handle_generate_admitted [OF this, of readJson upstream] run
    show "d' = d \<and> (\<exists>rest. log = ReadJson # rest
                        \<and> (rest = [] \<or> (\<exists>t q c. rest = [GenerateManaged t q c])))"
      by auto
  qed
  have c3: "b = [] \<and> tok \<noteq> [] \<longrightarrow>
            r = Json 401 (ErrorBody Unauthorized) \<and> d' = d \<and> log = []"
  proof
    assume e: "b = [] \<and> tok \<noteq> []"
    then have "authorise H tok (extractBearerToken authorization) d =
        (Some (Json 401 (ErrorBody Unauthorized)), d, [])"
      using tokb by (auto simp add: authorise_def)
    from handle_generate_rejected [OF this, of readJson upstream] run
    show "r = Json 401 (ErrorBody Unauthorized) \<and> d' = d \<and> log = []"
      by simp
  qed
  have c4: "b \<noteq> [] \<and> ReadJson \<in> set log \<longrightarrow>
            (tok \<noteq> [] \<and> b = tok)
            \<or> (\<exists>st c. getStudentByToken H d b = Some st \<and> s_active st \<noteq> 0
                  \<and> getClassroom d (classroom_id st) = Some c \<and> c_active c \<noteq> 0
                  \<and> requests_used st < request_limit c
                  \<and> log ! 0 = GetStudentByToken b)"
  proof (intro impI)
    assume e: "b \<noteq> [] \<and> ReadJson \<in> set log"
    show "(tok \<noteq> [] \<and> b = tok)
            \<or> (\<exists>st c. getStudentByToken H d b = Some st \<and> s_active st \<noteq> 0
                  \<and> getClassroom d (classroom_id st) = Some c \<and> c_active c \<noteq> 0
                  \<and> requests_used st < request_limit c
                  \<and> log ! 0 = GetStudentByToken b)"
    proof (cases "tok \<noteq> [] \<and> b = tok")
      case True
      then show ?thesis by simp
    next
      case False
      from e reads obtain d1 log1 where a: "authorise H tok b d = (None, d1, log1)"
        by (cases "authorise H tok b d") auto
      from authorise_student_admitted [OF _ False a] e
      obtain st c where sc: "getStudentByToken H d b = Some st" "s_active st \<noteq> 0"
          "getClassroom d (classroom_id st) = Some c" "c_active c \<noteq> 0"
          "requests_used st < request_limit c"
          "log1 = [GetStudentByToken b, GetClassroom (classroom_id st),
                   IncrementStudentUsage (s_id st)]"
        by blast
      from a tokb have "authorise H tok (extractBearerToken authorization) d = (None, d1, log1)"
        by simp
      from handle_generate_admitted [OF this, of readJson upstream] run
      obtain rest where "log = log1 @ ReadJson # rest"
        by auto
      with sc(6) have "log ! 0 = GetStudentByToken b"
        by simp
      with sc show ?thesis
        by blast
    qed
  qed
  have c5: "b \<noteq> [] \<and> \<not> (tok \<noteq> [] \<and> b = tok) \<and> ReadJson \<notin> set log \<longrightarrow>
            d' = d \<and> log \<noteq> []
            \<and> (\<exists>m. r = Json 401 (ErrorBody m) \<or> r = Json 403 (ErrorBody m)
                    \<or> r = Json 429 (ErrorBody m))"
  proof (intro impI)
    assume e: "b \<noteq> [] \<and> \<not> (tok \<noteq> [] \<and> b = tok) \<and> ReadJson \<notin> set log"
    with reads obtain rej d1 log1 where a: "authorise H tok b d = (Some rej, d1, log1)"
      by (cases "authorise H tok b d") auto
    from a tokb have a': "authorise H tok (extractBearerToken authorization) d = (Some rej, d1, log1)"
      by simp
    from handle_generate_rejected [OF a', of readJson upstream] run
    have res: "r = rej" "d' = d1" "log = log1"
      by simp_all
    from authorise_rejection_keeps_db [OF a] have keep: "d1 = d"
      by simp
    have "log1 \<noteq> []"
      using a e by (auto simp add: authorise_def split: if_splits option.splits)
    with res keep authorise_rejection_status [OF a]
    show "d' = d \<and> log \<noteq> []
            \<and> (\<exists>m. r = Json 401 (ErrorBody m) \<or> r = Json 403 (ErrorBody m)
                    \<or> r = Json 429 (ErrorBody m))"
      by simp
  qed
  have c6: "b \<noteq> [] \<and> \<not> (tok \<noteq> [] \<and> b = tok) \<and> getStudentByToken H d b = None \<longrightarrow>
            r = Json 401 (ErrorBody Unauthorized) \<and> d' = d \<and> log = [GetStudentByToken b]"
  proof
    assume e: "b \<noteq> [] \<and> \<not> (tok \<noteq> [] \<and> b = tok) \<and> getStudentByToken H d b = None"
    then have "authorise H tok (extractBearerToken authorization) d =
        (Some (Json 401 (ErrorBody Unauthorized)), d, [GetStudentByToken b])"
      using tokb by (auto simp add: authorise_def)
    from handle_generate_rejected [OF this, of readJson upstream] run
    show "r = Json 401 (ErrorBody Unauthorized) \<and> d' = d \<and> log = [GetStudentByToken b]"
      by simp
  qed
  from none c1 c2 c3 c4 c5 c6 show ?thesis
    by blast
qed


text \<open>
  Witness for C3. Without a static secret: the request with no header is admitted with
  no lookup, the header \<^verbatim>\<open>Bearer zz\<close>, whose token no student has, is answered 401
  after the lookup, and the header of \<open>ann\<close> is admitted as that of a student with quota
  left. With the secret \<^verbatim>\<open>k9\<close> the request with no header is answered 401.
\<close>

theorem open_mode_needs_no_credential_witness:
  "extractBearerToken (Some (js ''Bearer zz'')) = js ''zz'' \<and> js ''zz'' \<noteq> []
   \<and> getStudentByToken hash0 school (js ''zz'') = None
   \<and> handle_generate hash0 [] (Some (js ''Bearer zz'')) (Inr hello) (\<lambda>v. Inr []) school =
       (Json 401 (ErrorBody Unauthorized), school, [GetStudentByToken (js ''zz'')])
   \<and> handle_generate hash0 (js ''k9'') None (Inr hello) (\<lambda>v. Inr []) school =
       (Json 401 (ErrorBody Unauthorized), school, [])
   \<and> ReadJson \<in> set (snd (snd (handle_generate hash0 [] None (Inr hello) (\<lambda>v. Inr []) school)))
   \<and> fst (snd (handle_generate hash0 [] None (Inr hello) (\<lambda>v. Inr []) school)) = school
   \<and> ReadJson \<in> set (snd (snd (handle_generate hash0 [] (Some (js ''Bearer a1'')) (Inr hello)
                                   (\<lambda>v. Inr []) school)))
   \<and> requests_used ann < request_limit room"
proof -
  let ?up = "\<lambda>v::validated. Inr [] :: failure + jsstring"
  let ?zz = "handle_generate hash0 [] (Some (js ''Bearer zz'')) (Inr hello) ?up school"
  let ?k9 = "handle_generate hash0 (js ''k9'') None (Inr hello) ?up school"
  let ?op = "handle_generate hash0 [] None (Inr hello) ?up school"
  let ?a1 = "handle_generate hash0 [] (Some (js ''Bearer a1'')) (Inr hello) ?up school"
  have zz: "js ''zz'' \<noteq> []" "getStudentByToken hash0 school (js ''zz'') = None"
    by (simp_all add: eval_school)
  have k9: "js ''k9'' \<noteq> []"
    by (simp add: js_def)
  have none: "extractBearerToken None = []"
    by (simp add: extractBearerToken_def)
  have run_zz: "?zz = (fst ?zz, fst (snd ?zz), snd (snd ?zz))"
    by simp
  from open_mode_needs_no_credential [OF bearer_zz run_zz] zz
  have "fst ?zz = Json 401 (ErrorBody Unauthorized) \<and> fst (snd ?zz) = school
        \<and> snd (snd ?zz) = [GetStudentByToken (js ''zz'')]"
    by blast
  then have one: "?zz = (Json 401 (ErrorBody Unauthorized), school, [GetStudentByToken (js ''zz'')])"
    by (simp add: prod_eq_iff)
  have run_k9: "?k9 = (fst ?k9, fst (snd ?k9), snd (snd ?k9))"
    by simp
  from open_mode_needs_no_credential [OF none run_k9] k9
  have "fst ?k9 = Json 401 (ErrorBody Unauthorized) \<and> fst (snd ?k9) = school
        \<and> snd (snd ?k9) = []"
    by blast
  then have two: "?k9 = (Json 401 (ErrorBody Unauthorized), school, [])"
    by (simp add: prod_eq_iff)
  have run_op: "?op = (fst ?op, fst (snd ?op), snd (snd ?op))"
    by simp
  from open_mode_needs_no_credential [OF none run_op]
  have three: "ReadJson \<in> set (snd (snd ?op))" "fst (snd ?op) = school"
    by blast+
  have a1: "js ''a1'' \<noteq> []" "[] \<noteq> js ''a1''"
    by (simp_all add: js_def)
  have "?a1 = (Json 200 (ResultBody \<lparr>code = stub_arcade, feedback = [fallback_note]\<rparr>),
          incrementStudentUsage school (js ''s1''),
          [GetStudentByToken (js ''a1''), GetClassroom (js ''c1''),
           IncrementStudentUsage (js ''s1''), ReadJson,
           GenerateManaged (js ''arcade'') (js ''hi'') []])"
    by (simp add: handle_generate_def bearer_ann authorise_ann [OF a1(2)] validate_hello
        generateManaged_def normalise_def separateFeedback_def extractCode_def
        stubForTarget_def)
  then have reads: "ReadJson \<in> set (snd (snd ?a1))"
    by simp
  have run_a1: "?a1 = (fst ?a1, fst (snd ?a1), snd (snd ?a1))"
    by simp
  from open_mode_needs_no_credential [OF bearer_ann run_a1] a1(1) reads
  obtain st c where sc: "getStudentByToken hash0 school (js ''a1'') = Some st"
      "getClassroom school (classroom_id st) = Some c" "requests_used st < request_limit c"
    by blast
  from sc(1) have st: "st = ann"
    by (simp add: school_ann)
  with sc(2) have "c = room"
    by (simp add: ann_def school_room)
  with st sc(3) have four: "requests_used ann < request_limit room"
    by simp
  from bearer_zz zz one two three reads four show ?thesis
    by simp
qed

text \<open>
  Claim C4. When a static secret is configured and the credential presented equals it,
  the authorisation block admits at once: it makes no call on the store and returns the
  database as it was, whatever the classrooms and students are, also when a student
  token hashes from the same string. The handler then only reads the body and calls the
  pipeline, so the database it returns is the one it received.
\<close>

theorem static_secret_admits_unmetered:
  assumes "tok \<noteq> []" "extractBearerToken authorization = tok"
  shows "authorise H tok tok d = (None, d, [])
       \<and> (\<exists>r rest. handle_generate H tok authorization readJson upstream d =
                      (r, d, ReadJson # rest)
                  \<and> (rest = [] \<or> (\<exists>t q c. rest = [GenerateManaged t q c])))"
proof -
  have a: "authorise H tok tok d = (None, d, [])"
    using assms(1) by (simp add: authorise_def)
  from handle_generate_admitted [of H tok authorization d d "[]" readJson upstream] a assms(2)
  show ?thesis
    by simp
qed

text \<open>
  Witness for C4: the static secret is \<^verbatim>\<open>b2\<close>, the token of \<open>bob\<close>, who is at the
  limit; the request is admitted and the database is unchanged.
\<close>

theorem static_secret_admits_unmetered_witness:
  "js ''b2'' \<noteq> [] \<and> extractBearerToken (Some (js ''Bearer b2'')) = js ''b2''
   \<and> getStudentByToken hash0 school (js ''b2'') = Some bob
   \<and> authorise hash0 (js ''b2'') (js ''b2'') school = (None, school, [])
   \<and> handle_generate hash0 (js ''b2'') (Some (js ''Bearer b2'')) (Inl AbortError)
        (\<lambda>v. Inl AbortError) school =
      (Json 500 (FailureBody AbortError), school, [ReadJson])"
proof -
  have ne: "js ''b2'' \<noteq> []"
    by (simp add: js_def)
  from static_secret_admits_unmetered [OF ne bearer_bob, of hash0 school]
  have a: "authorise hash0 (js ''b2'') (js ''b2'') school = (None, school, [])"
    by simp
  have h: "handle_generate hash0 (js ''b2'') (Some (js ''Bearer b2'')) (Inl AbortError)
        (\<lambda>v. Inl AbortError) school =
      (Json 500 (FailureBody AbortError), school, [ReadJson])"
    by (simp add: handle_generate_def bearer_bob a)
  from ne bearer_bob school_bob a h show ?thesis
    by simp
qed

text \<open>
  Claim C5. The credential of a request in student-token mode hashes to a student row.
  If the student is inactive, or the classroom of the student is missing or inactive,
  the response is 403 (access deactivated, or classroom paused), with no condition on the
  student's \<open>requests_used\<close>: the checks come before the comparison with the limit. The
  database is unchanged and the log holds no increment.
\<close>

theorem inactive_is_forbidden:
  assumes mode: "extractBearerToken authorization = b" "b \<noteq> []" "\<not> (tok \<noteq> [] \<and> b = tok)"
    and st: "getStudentByToken H d b = Some st"
    and off: "s_active st = 0 \<or> getClassroom d (classroom_id st) = None
              \<or> (\<exists>c. getClassroom d (classroom_id st) = Some c \<and> c_active c = 0)"
  shows "\<exists>m log. handle_generate H tok authorization readJson upstream d =
                    (Json 403 (ErrorBody m), d, log)
               \<and> m = (if s_active st = 0 then AccessDeactivated else ClassroomPaused)
               \<and> (\<forall>sid. IncrementStudentUsage sid \<notin> set log)"
proof -
  have "\<exists>log. authorise H tok b d =
          (Some (Json 403 (ErrorBody
             (if s_active st = 0 then AccessDeactivated else ClassroomPaused))), d, log)
        \<and> (\<forall>sid. IncrementStudentUsage sid \<notin> set log)"
    using mode(2) mode(3) st off
    by (auto simp add: authorise_def)
  then obtain log where a: "authorise H tok b d =
          (Some (Json 403 (ErrorBody
             (if s_active st = 0 then AccessDeactivated else ClassroomPaused))), d, log)"
      and n: "\<forall>sid. IncrementStudentUsage sid \<notin> set log"
    by blast
  from handle_generate_rejected [of H tok authorization d _ d log readJson upstream] a mode(1)
  have "handle_generate H tok authorization readJson upstream d =
      (Json 403 (ErrorBody
         (if s_active st = 0 then AccessDeactivated else ClassroomPaused)), d, log)"
    by simp
  with n show ?thesis
    by blast
qed

text \<open>
  Witness for C5: \<open>cy\<close> is deactivated with both requests left, and is answered 403;
  \<open>ann\<close>, with one request left, is answered 403 in the school with the classroom
  paused and in the school without the classroom row.
\<close>

theorem inactive_is_forbidden_witness:
  "requests_used cy < request_limit room
   \<and> handle_generate hash0 (js ''k9'') (Some (js ''Bearer c3'')) (Inr hello)
        (\<lambda>v. Inr []) school =
      (Json 403 (ErrorBody AccessDeactivated), school, [GetStudentByToken (js ''c3'')])
   \<and> requests_used ann < request_limit (room\<lparr>c_active := 0\<rparr>)
   \<and> handle_generate hash0 (js ''k9'') (Some (js ''Bearer a1'')) (Inr hello)
        (\<lambda>v. Inr []) paused_school =
      (Json 403 (ErrorBody ClassroomPaused), paused_school,
       [GetStudentByToken (js ''a1''), GetClassroom (js ''c1'')])
   \<and> getClassroom orphan_school (classroom_id ann) = None
   \<and> handle_generate hash0 (js ''k9'') (Some (js ''Bearer a1'')) (Inr hello)
        (\<lambda>v. Inr []) orphan_school =
      (Json 403 (ErrorBody ClassroomPaused), orphan_school,
       [GetStudentByToken (js ''a1''), GetClassroom (js ''c1'')])"
proof -
  have ne: "js ''c3'' \<noteq> []" "\<not> (js ''k9'' \<noteq> [] \<and> js ''c3'' = js ''k9'')"
      "js ''a1'' \<noteq> []" "\<not> (js ''k9'' \<noteq> [] \<and> js ''a1'' = js ''k9'')"
    by (simp_all add: js_def)
  have q: "requests_used cy < request_limit room"
      "requests_used ann < request_limit (room\<lparr>c_active := 0\<rparr>)"
    by (simp_all add: cy_def ann_def room_def)
  have off1: "s_active cy = 0"
    by (simp add: cy_def)
  have pa: "getStudentByToken hash0 paused_school (js ''a1'') = Some ann"
    by (simp add: paused_school_def eval_school)
  have off2: "\<exists>c. getClassroom paused_school (classroom_id ann) = Some c \<and> c_active c = 0"
    by (simp add: paused_school_def eval_school)
  have oa: "getStudentByToken hash0 orphan_school (js ''a1'') = Some ann"
    by (simp add: orphan_school_def eval_school)
  have off3: "getClassroom orphan_school (classroom_id ann) = None"
    by (simp add: orphan_school_def getClassroom_def)
  have on2: "s_active ann \<noteq> 0" "classroom_id ann = js ''c1''"
    by (simp_all add: ann_def)
  from inactive_is_forbidden [OF bearer_cy ne(1) ne(2) school_cy, of "Inr hello" "\<lambda>v. Inr []"] off1
  obtain log1 where one: "handle_generate hash0 (js ''k9'') (Some (js ''Bearer c3'')) (Inr hello)
        (\<lambda>v. Inr []) school = (Json 403 (ErrorBody AccessDeactivated), school, log1)"
    by auto
  have l1: "log1 = [GetStudentByToken (js ''c3'')]"
    using one ne(1) ne(2) off1
    by (simp add: handle_generate_def bearer_cy authorise_def school_cy)
  from inactive_is_forbidden [OF bearer_ann ne(3) ne(4) pa, of "Inr hello" "\<lambda>v. Inr []"] off2 on2
  obtain log2 where two: "handle_generate hash0 (js ''k9'') (Some (js ''Bearer a1'')) (Inr hello)
        (\<lambda>v. Inr []) paused_school = (Json 403 (ErrorBody ClassroomPaused), paused_school, log2)"
    by auto
  have l2: "log2 = [GetStudentByToken (js ''a1''), GetClassroom (js ''c1'')]"
    using two ne(3) ne(4) on2 off2
    by (auto simp add: handle_generate_def bearer_ann authorise_def pa)
  from inactive_is_forbidden [OF bearer_ann ne(3) ne(4) oa, of "Inr hello" "\<lambda>v. Inr []"] off3 on2
  obtain log3 where three: "handle_generate hash0 (js ''k9'') (Some (js ''Bearer a1'')) (Inr hello)
        (\<lambda>v. Inr []) orphan_school = (Json 403 (ErrorBody ClassroomPaused), orphan_school, log3)"
    by auto
  have l3: "log3 = [GetStudentByToken (js ''a1''), GetClassroom (js ''c1'')]"
    using three ne(3) ne(4) on2 off3
    by (auto simp add: handle_generate_def bearer_ann authorise_def oa)
  from q one l1 two l2 off3 three l3 show ?thesis
    by simp
qed

subsection \<open>The bearer pattern\<close>

lemma js_Bearer_length: "length (js ''Bearer'') = 6"
  by (simp add: js_def)

lemma bearer_match_sound:
  assumes "bearer_match h = Some m"
  shows "\<exists>ws. bearer_split h ws m"
proof -
  let ?r = "drop 6 h"
  let ?W = "takeWhile is_ws ?r"
  let ?R = "dropWhile is_ws ?r"
  from assms have ci: "starts_with_ci (js ''Bearer'') h"
    by (auto simp add: bearer_match_def split: if_splits)
  then have p: "map ascii_upper (take 6 h) = map ascii_upper (js ''Bearer'')"
    by (simp add: starts_with_ci_def js_Bearer_length)
  have h: "h = take 6 h @ ?W @ ?R"
    by simp
  from assms ci have W: "?W \<noteq> []"
    by (auto simp add: bearer_match_def Let_def split: if_splits)
  have allW: "list_all is_ws ?W"
    by (simp add: list_all_iff) (meson set_takeWhileD)
  show ?thesis
  proof (cases "?R = []")
    case False
    with assms ci W have "m = ?R" "\<not> list_ex is_line_terminator ?R"
      by (auto simp add: bearer_match_def Let_def split: if_splits)
    with h p W allW False have "bearer_split h ?W m"
      unfolding bearer_split_def by metis
    then show ?thesis ..
  next
    case True
    with assms ci W have m: "m = [last ?W]" "length ?W \<ge> 2" "\<not> is_line_terminator (last ?W)"
      by (auto simp add: bearer_match_def Let_def split: if_splits)
    from W have split: "?W = butlast ?W @ [last ?W]"
      by simp
    from m(2) have b: "butlast ?W \<noteq> []"
      by (cases ?W rule: rev_cases) auto
    from allW have allb: "list_all is_ws (butlast ?W)"
      by (metis list_all_append split)
    from h True split have "h = take 6 h @ butlast ?W @ m"
      using m(1) by (metis append.assoc append_Nil2)
    with p b allb m have "bearer_split h (butlast ?W) m"
      unfolding bearer_split_def by auto
    then show ?thesis ..
  qed
qed

lemma bearer_match_complete:
  assumes "bearer_split h ws m"
  shows "bearer_match h \<noteq> None"
proof -
  from assms obtain p where h: "h = p @ ws @ m"
      and p: "map ascii_upper p = map ascii_upper (js ''Bearer'')"
      and ws: "ws \<noteq> []" "list_all is_ws ws"
      and m: "m \<noteq> []" "\<not> list_ex is_line_terminator m"
    unfolding bearer_split_def by blast
  from p have lp: "length p = 6"
    by (metis js_Bearer_length length_map)
  with h p have ci: "starts_with_ci (js ''Bearer'') h"
    by (simp add: starts_with_ci_def js_Bearer_length)
  from h lp have r: "drop 6 h = ws @ m"
    by simp
  from ws(2) have W: "takeWhile is_ws (ws @ m) = ws @ takeWhile is_ws m"
    by (simp add: takeWhile_append2 list_all_iff)
  from ws(2) have R: "dropWhile is_ws (ws @ m) = dropWhile is_ws m"
    by (simp add: dropWhile_append2 list_all_iff)
  from W ws(1) have Wne: "takeWhile is_ws (ws @ m) \<noteq> []"
    by simp
  show ?thesis
  proof (cases "dropWhile is_ws m = []")
    case False
    have "set (dropWhile is_ws m) \<subseteq> set m"
      by (simp add: set_dropWhileD subsetI)
    with m(2) have "\<not> list_ex is_line_terminator (dropWhile is_ws m)"
      by (auto simp add: list_ex_iff)
    moreover from r W have TW: "takeWhile is_ws (drop 6 h) = ws @ takeWhile is_ws m"
      by simp
    moreover from r R have DW: "dropWhile is_ws (drop 6 h) = dropWhile is_ws m"
      by simp
    ultimately show ?thesis
      using False ws(1) by (simp add: bearer_match_def Let_def ci)
  next
    case True
    then have all: "takeWhile is_ws m = m"
      by (metis takeWhile_dropWhile_id append_Nil2)
    with W have Wm: "takeWhile is_ws (ws @ m) = ws @ m"
      by simp
    from ws(1) m(1) have len: "length (ws @ m) \<ge> 2"
      by (cases ws; cases m) auto
    from m have nlt: "\<not> is_line_terminator (last (ws @ m))"
      by (simp add: list_ex_iff)
    from r Wm have TW: "takeWhile is_ws (drop 6 h) = ws @ m"
      by simp
    from r R True have DW: "dropWhile is_ws (drop 6 h) = []"
      by simp
    from len nlt ws(1) show ?thesis
      by (simp add: bearer_match_def Let_def ci TW DW)
  qed
qed

lemma bearer_match_none_iff:
  "bearer_match h = None \<longleftrightarrow> \<not> (\<exists>ws m. bearer_split h ws m)"
  using bearer_match_sound bearer_match_complete
  by (metis option.exhaust)


text \<open>
  \<^verbatim>\<open>\\s+\<close> is greedy: among the ways to split the header, the match takes the longest
  run of white space, so the group it captures is the shortest.
\<close>

lemma bearer_match_greedy:
  assumes "bearer_match h = Some m" and "bearer_split h ws' m'"
  shows "length m \<le> length m'"
proof -
  from assms(2) obtain p where h: "h = p @ ws' @ m'"
      and p: "map ascii_upper p = map ascii_upper (js ''Bearer'')"
      and ws: "list_all is_ws ws'" and m': "m' \<noteq> []"
    unfolding bearer_split_def by blast
  from p have "length p = 6"
    by (metis js_Bearer_length length_map)
  with h have r: "drop 6 h = ws' @ m'"
    by simp
  from ws have R: "dropWhile is_ws (drop 6 h) = dropWhile is_ws m'"
    by (simp add: r dropWhile_append2 list_all_iff)
  show ?thesis
  proof (cases "dropWhile is_ws (drop 6 h) = []")
    case True
    with assms(1) have "length m = 1"
      by (auto simp add: bearer_match_def Let_def split: if_splits)
    with m' show ?thesis
      by (cases m') simp_all
  next
    case False
    with assms(1) have "m = dropWhile is_ws (drop 6 h)"
      by (auto simp add: bearer_match_def Let_def split: if_splits)
    with R show ?thesis
      by (simp add: length_dropWhile_le)
  qed
qed

text \<open>
  Claim C10. An Authorization header that the pattern \<^verbatim>\<open>/^Bearer\s+(.+)$/i\<close> does not
  match is handled as a request without the header: the bearer token is empty, the
  handler returns what it returns for the request with no header, and the authorisation
  block makes no lookup; it admits when no static secret is configured and answers 401
  when one is. A static secret set to the empty string is the same as none.
\<close>

theorem malformed_header_is_no_credential:
  assumes "bearer_match h = None"
  shows "extractBearerToken (Some h) = []
       \<and> handle_generate H tok (Some h) readJson upstream d =
           handle_generate H tok None readJson upstream d
       \<and> (tok = [] \<longrightarrow> authorise H tok (extractBearerToken (Some h)) d = (None, d, []))
       \<and> (tok \<noteq> [] \<longrightarrow>
            authorise H tok (extractBearerToken (Some h)) d =
              (Some (Json 401 (ErrorBody Unauthorized)), d, []))
       \<and> server_app_token (Some []) = server_app_token None
       \<and> server_app_token None = []"
proof -
  have e: "extractBearerToken (Some h) = []"
    using assms by (simp add: extractBearerToken_def)
  have n: "extractBearerToken None = []"
    by (simp add: extractBearerToken_def)
  have same: "handle_generate H tok (Some h) readJson upstream d =
           handle_generate H tok None readJson upstream d"
    by (simp add: handle_generate_def e n)
  have open_mode: "tok = [] \<longrightarrow>
      authorise H tok (extractBearerToken (Some h)) d = (None, d, [])"
    by (simp add: e authorise_def)
  have closed: "tok \<noteq> [] \<longrightarrow>
      authorise H tok (extractBearerToken (Some h)) d =
        (Some (Json 401 (ErrorBody Unauthorized)), d, [])"
    by (simp add: e authorise_def)
  have s: "server_app_token (Some []) = server_app_token None" "server_app_token None = []"
    by (simp_all add: server_app_token_def)
  from e same open_mode closed s show ?thesis
    by blast
qed

text \<open>
  Witness for C10: the header \<^verbatim>\<open>Token a1\<close> names the token of \<open>ann\<close> under another
  scheme, and the header \<^verbatim>\<open>Bearer \<close> has nothing after the space. Neither matches;
  with the secret \<^verbatim>\<open>k9\<close> the first is answered 401 with no lookup, and without a
  secret the second is admitted with no lookup.
\<close>

theorem malformed_header_is_no_credential_witness:
  "bearer_match (js ''Token a1'') = None \<and> bearer_match (js ''Bearer '') = None
   \<and> authorise hash0 (js ''k9'') (extractBearerToken (Some (js ''Token a1''))) school =
       (Some (Json 401 (ErrorBody Unauthorized)), school, [])
   \<and> authorise hash0 [] (extractBearerToken (Some (js ''Bearer ''))) school =
       (None, school, [])"
proof -
  have m: "bearer_match (js ''Token a1'') = None" "bearer_match (js ''Bearer '') = None"
    by (simp_all add: bearer_match_def Let_def eval_text)
  have k9: "js ''k9'' \<noteq> []"
    by (simp add: js_def)
  from malformed_header_is_no_credential
      [OF m(1), of hash0 "js ''k9''" "Inl AbortError" "\<lambda>v. Inl AbortError" school] k9
  have one: "authorise hash0 (js ''k9'') (extractBearerToken (Some (js ''Token a1''))) school =
       (Some (Json 401 (ErrorBody Unauthorized)), school, [])"
    by blast
  from malformed_header_is_no_credential
      [OF m(2), of hash0 "[]" "Inl AbortError" "\<lambda>v. Inl AbortError" school]
  have two: "authorise hash0 [] (extractBearerToken (Some (js ''Bearer ''))) school =
       (None, school, [])"
    by blast
  from m one two show ?thesis
    by simp
qed

section \<open>The fallback of the pipeline\<close>



section \<open>Deactivating a student\<close>

text \<open>
  Claim C6 says that \<^verbatim>\<open>deactivateStudent\<close> returns false when the student has no
  active row in the classroom. The UPDATE has no condition on \<^verbatim>\<open>active\<close>: for \<open>cy\<close>,
  who is deactivated already, the row is selected again and the function returns true.
\<close>

theorem deactivate_inactive_counterexample:
  "matching_active_rows school (js ''s3'') (js ''c1'') = []
   \<and> snd (deactivateStudent school (js ''s3'') (js ''c1'')) = True"
  by (simp add: matching_active_rows_def deactivateStudent_def school_def ann_def bob_def
      cy_def js_def)

lemma deactivated_rows_inactive:
  "filter (\<lambda>s. s_id s = i \<and> classroom_id s = c \<and> s_active s \<noteq> 0)
     (map (\<lambda>s. if s_id s = i \<and> classroom_id s = c then s\<lparr>s_active := 0\<rparr> else s) xs) = []"
  by (induction xs) auto

text \<open>
  Claim C6, amended. \<^verbatim>\<open>deactivateStudent(studentId, classroomId)\<close> returns true exactly
  when a row with that id and that classroom exists, active or not. Every such row is
  inactive afterwards and differs from the row before in \<open>s_active\<close> only; every other
  row is the row before. When the function returns false the table is unchanged.
\<close>

theorem deactivate_returns_row_selected:
  "(snd (deactivateStudent d studentId classroomId) \<longleftrightarrow>
      (\<exists>s \<in> set (students d). s_id s = studentId \<and> classroom_id s = classroomId))
   \<and> students (fst (deactivateStudent d studentId classroomId)) =
       map (\<lambda>s. if s_id s = studentId \<and> classroom_id s = classroomId
                 then s\<lparr>s_active := 0\<rparr> else s) (students d)
   \<and> classrooms (fst (deactivateStudent d studentId classroomId)) = classrooms d
   \<and> matching_active_rows (fst (deactivateStudent d studentId classroomId))
        studentId classroomId = []
   \<and> (\<not> snd (deactivateStudent d studentId classroomId) \<longrightarrow>
        fst (deactivateStudent d studentId classroomId) = d)"
proof -
  let ?sel = "\<lambda>s. s_id s = studentId \<and> classroom_id s = classroomId"
  have ret: "snd (deactivateStudent d studentId classroomId) \<longleftrightarrow>
      (\<exists>s \<in> set (students d). ?sel s)"
    by (auto simp add: deactivateStudent_def Let_def filter_empty_conv)
  have rows: "students (fst (deactivateStudent d studentId classroomId)) =
       map (\<lambda>s. if ?sel s then s\<lparr>s_active := 0\<rparr> else s) (students d)"
    by (simp add: deactivateStudent_def Let_def)
  have cls: "classrooms (fst (deactivateStudent d studentId classroomId)) = classrooms d"
    by (simp add: deactivateStudent_def Let_def)
  have off: "matching_active_rows (fst (deactivateStudent d studentId classroomId))
        studentId classroomId = []"
    unfolding matching_active_rows_def rows
    by (rule deactivated_rows_inactive)
  have same: "\<not> snd (deactivateStudent d studentId classroomId) \<longrightarrow>
        fst (deactivateStudent d studentId classroomId) = d"
  proof
    assume "\<not> snd (deactivateStudent d studentId classroomId)"
    with ret have "\<forall>s \<in> set (students d). \<not> ?sel s"
      by blast
    then have "map (\<lambda>s. if ?sel s then s\<lparr>s_active := 0\<rparr> else s) (students d) = students d"
      by (intro map_idI) auto
    then show "fst (deactivateStudent d studentId classroomId) = d"
      by (simp add: deactivateStudent_def Let_def)
  qed
  from ret rows cls off same show ?thesis
    by blast
qed

text \<open>
  Witness for the amended C6: deactivating \<open>ann\<close> in the classroom of \<open>ann\<close> returns
  true and leaves the row inactive; with another classroom id it returns false and
  changes nothing.
\<close>

theorem deactivate_returns_row_selected_witness:
  "ann \<in> set (students school) \<and> s_id ann = js ''s1'' \<and> classroom_id ann = js ''c1''
   \<and> deactivateStudent school (js ''s1'') (js ''c1'') =
       (school\<lparr>students := [ann\<lparr>s_active := 0\<rparr>, bob, cy]\<rparr>, True)
   \<and> deactivateStudent school (js ''s1'') (js ''c2'') = (school, False)"
proof -
  have a: "ann \<in> set (students school)" "s_id ann = js ''s1''" "classroom_id ann = js ''c1''"
    by (simp_all add: school_def ann_def)
  have ids: "s_id bob = js ''s2''" "s_id cy = js ''s3''" "js ''s2'' \<noteq> js ''s1''"
      "js ''s3'' \<noteq> js ''s1''" "js ''c1'' \<noteq> js ''c2''"
      "classroom_id bob = js ''c1''" "classroom_id cy = js ''c1''"
    by (simp_all add: bob_def cy_def js_def)
  have st: "students school = [ann, bob, cy]"
    by (simp add: school_def)
  from deactivate_returns_row_selected [of school "js ''s1''" "js ''c1''"] a
  have yes: "snd (deactivateStudent school (js ''s1'') (js ''c1''))"
    and rows: "students (fst (deactivateStudent school (js ''s1'') (js ''c1''))) =
       [ann\<lparr>s_active := 0\<rparr>, bob, cy]"
    and cls: "classrooms (fst (deactivateStudent school (js ''s1'') (js ''c1''))) =
       classrooms school"
    by (auto simp add: st ids)
  have one: "deactivateStudent school (js ''s1'') (js ''c1'') =
       (school\<lparr>students := [ann\<lparr>s_active := 0\<rparr>, bob, cy]\<rparr>, True)"
    using yes rows cls
    by (cases "deactivateStudent school (js ''s1'') (js ''c1'')") auto
  from deactivate_returns_row_selected [of school "js ''s1''" "js ''c2''"]
  have two: "deactivateStudent school (js ''s1'') (js ''c2'') = (school, False)"
    by (cases "deactivateStudent school (js ''s1'') (js ''c2'')") (auto simp add: st a ids)
  from a one two show ?thesis
    by simp
qed

section \<open>Extraction on sanitised code\<close>

lemma no_fence_no_match: "\<not> has_sub fence s \<Longrightarrow> match_fence s = None"
  by (induction s) (simp_all add: fence_at_def)

lemma no_fence_no_start: "\<not> has_sub fence s \<Longrightarrow> \<not> starts_with fence s"
  by (cases s) (simp_all add: starts_with_def fence_def)

lemma replace_all_absent: "\<not> has_sub p s \<Longrightarrow> replace_all p r s = s"
  by (induction s) simp_all

lemma has_sub_head_absent: "c \<notin> set s \<Longrightarrow> \<not> has_sub (c # p) s"
  by (induction s) (auto simp add: starts_with_def)

lemma replace_class_absent: "list_all (\<lambda>c. \<not> cls c) s \<Longrightarrow> replace_class cls r s = s"
  by (induction s) (simp_all add: replace_class_def)

lemma dropWhile_head_kept: "xs \<noteq> [] \<Longrightarrow> \<not> P (hd xs) \<Longrightarrow> dropWhile P xs = xs"
  by (cases xs) simp_all

lemma strip_both_ends_id:
  assumes "s \<noteq> [] \<longrightarrow> \<not> P (hd s) \<and> \<not> P (last s)"
  shows "rev (dropWhile P (rev (dropWhile P s))) = s"
proof (cases "s = []")
  case True
  then show ?thesis by simp
next
  case False
  with assms have h: "\<not> P (hd s)" and l: "\<not> P (last s)"
    by simp_all
  from False h have front: "dropWhile P s = s"
    by (rule dropWhile_head_kept)
  from False have "rev s \<noteq> []" "hd (rev s) = last s"
    by (simp_all add: hd_rev)
  with l have "dropWhile P (rev s) = rev s"
    by (simp add: dropWhile_head_kept)
  with front show ?thesis
    by simp
qed

text \<open>
  Claim C9. For every string that is sanitised already (see \<open>sanitized\<close>),
  \<^verbatim>\<open>extractCode\<close> returns the string itself.
\<close>

theorem extractCode_sanitized: "sanitized s \<Longrightarrow> extractCode s = s"
proof -
  assume san: "sanitized s"
  from san have nf: "\<not> has_sub fence s"
    by (simp add: sanitized_def)
  have esc: "replace_all [92, 116] [9]
               (replace_all [92, 110] [10] (replace_all [92, 114, 92, 110] [10] s)) = s"
    using san by (simp add: sanitized_def replace_all_absent)
  have "13 \<notin> set s"
    using san by (auto simp add: sanitized_def list_all_iff)
  then have cr: "replace_all [13] [10] (replace_all [13, 10] [10] s) = s"
    by (simp add: replace_all_absent has_sub_head_absent)
  have "list_all (\<lambda>c. \<not> (c = 8216 \<or> c = 8217)) s" "list_all (\<lambda>c. \<not> (c = 8220 \<or> c = 8221)) s"
    using san by (simp_all add: sanitized_def list_all_iff)
  then have quotes: "replace_class (\<lambda>c. c = 8220 \<or> c = 8221) [34]
                       (replace_class (\<lambda>c. c = 8216 \<or> c = 8217) [39] s) = s"
    by (simp add: replace_class_absent)
  have "list_all (\<lambda>c. \<not> ((8203 \<le> c \<and> c \<le> 8205) \<or> c = 65279)) s"
      "list_all (\<lambda>c. \<not> c = 160) s"
    using san by (simp_all add: sanitized_def list_all_iff)
  then have zw: "replace_class (\<lambda>c. c = 160) [32]
                   (replace_class (\<lambda>c. (8203 \<le> c \<and> c \<le> 8205) \<or> c = 65279) [] s) = s"
    by (simp add: replace_class_absent)
  have ticks: "strip_backticks s = s"
    unfolding strip_backticks_def
    using san by (intro strip_both_ends_id) (simp add: sanitized_def)
  have tr: "trim s = s"
    unfolding trim_def
    using san by (intro strip_both_ends_id) (simp add: sanitized_def)
  have "sanitizeMakeCode s = s"
    by (simp add: sanitizeMakeCode_def Let_def no_fence_no_start [OF nf] esc cr quotes zw
        ticks tr)
  then show ?thesis
    by (simp add: extractCode_def no_fence_no_match [OF nf])
qed

text \<open>Witness for C9: the micro:bit stub is sanitised and extraction returns it.\<close>

lemma stub_microbit_sanitized: "sanitized stub_microbit"
  by (simp add: sanitized_def stub_microbit_def eval_text)

theorem extractCode_sanitized_witness:
  "sanitized stub_microbit \<and> extractCode stub_microbit = stub_microbit"
  using extractCode_sanitized [OF stub_microbit_sanitized] stub_microbit_sanitized
  by simp

end
